theory Spec2Isabelle
  imports Main "HOL-Library.Word" "HOL-Library.Sublist"
begin

section \<open>The native library boundary\<close>

text \<open>
  The package is a cgo wrapper: \<^verbatim>\<open>init.go\<close> calls into the native
  cryptographic library and reads its error queue. The native side is modelled by what
  the wrapper can observe of it: the order in which setup entry points are called, the
  return code of the lock allocator, the per-thread queues of error codes and the three
  string tables that resolve a code.
\<close>

type_synonym c_int = "32 word"
type_synonym c_ulong = "64 word"
type_synonym thread_id = nat

text \<open>
  The native entry points that \<^verbatim>\<open>init\<close> and its C helpers call.
  \<^verbatim>\<open>OpenSSL_add_all_algorithms\<close> is reached through the helper
  \<^verbatim>\<open>OpenSSL_add_all_algorithms_not_a_macro\<close>;
  \<^verbatim>\<open>Goopenssl_init_locks\<close> is the extern lock-bank allocator and
  \<^verbatim>\<open>CRYPTO_set_locking_callback\<close> registers
  \<^verbatim>\<open>Goopenssl_thread_locking_callback\<close>.
\<close>

datatype native_call =
    OPENSSL_config
  | ENGINE_load_builtin_engines
  | SSL_load_error_strings
  | SSL_library_init
  | OpenSSL_add_all_algorithms
  | Goopenssl_init_locks
  | CRYPTO_set_locking_callback

text \<open>The calls made so far, oldest first.\<close>

type_synonym call_trace = "native_call list"

text \<open>
  A Go \<^verbatim>\<open>error\<close> interface value: \<^verbatim>\<open>nil\<close>, or the
  string-carrying error built by \<^verbatim>\<open>errors.New\<close> and
  \<^verbatim>\<open>fmt.Errorf\<close>.
\<close>

datatype go_error = ErrNil | ErrorString string

definition errors_New :: "string \<Rightarrow> go_error" where
  "errors_New text = ErrorString text"

subsection \<open>Formatting\<close>

text \<open>
  The verb \<^verbatim>\<open>%d\<close> of \<^verbatim>\<open>fmt\<close>: signed decimal.
  \<^term>\<open>digit_char\<close> is only applied to numbers below ten.
\<close>

definition digit_char :: "nat \<Rightarrow> char" where
  "digit_char n = ''0123456789'' ! n"

function dec_nat :: "nat \<Rightarrow> string" where
  "dec_nat n = (if n < 10 then [digit_char n] else dec_nat (n div 10) @ [digit_char (n mod 10)])"
  by pat_completeness auto
termination
  by (relation "measure (\<lambda>n. n)") auto

declare dec_nat.simps [simp del]

definition fmt_d :: "int \<Rightarrow> string" where
  "fmt_d i = (if i < 0 then CHR ''-'' # dec_nat (nat (- i)) else dec_nat (nat i))"

text \<open>
  \<^verbatim>\<open>strings.Join(elems, sep)\<close>: the empty string for no elements, the
  element itself for one, otherwise the elements with \<^verbatim>\<open>sep\<close> between
  neighbours.
\<close>

fun Join :: "string list \<Rightarrow> string \<Rightarrow> string" where
  "Join [] sep = []"
| "Join [x] sep = x"
| "Join (x # y # ys) sep = x @ sep @ Join (y # ys) sep"

text \<open>
  \<^verbatim>\<open>C.GoString\<close> copies a C string; the null pointer (here
  \<^term>\<open>None\<close>) gives the empty string.
\<close>

definition GoString :: "string option \<Rightarrow> string" where
  "GoString p = (case p of None \<Rightarrow> [] | Some s \<Rightarrow> s)"

section \<open>Initialization\<close>

text \<open>
  \<^verbatim>\<open>
  static int Goopenssl_init_threadsafety() {
      int rc = Goopenssl_init_locks();
      if (rc == 0) {
          CRYPTO_set_locking_callback(Goopenssl_thread_locking_callback);
      }
      return rc;
  }
  \<close>
  \<^verbatim>\<open>Goopenssl_init_locks\<close> is declared \<^verbatim>\<open>extern\<close> and
  defined outside \<^verbatim>\<open>init.go\<close>; its return code is the parameter
  \<open>locks_rc\<close>.
\<close>

definition Goopenssl_init_threadsafety :: "c_int \<Rightarrow> call_trace \<Rightarrow> c_int \<times> call_trace" where
  "Goopenssl_init_threadsafety locks_rc tr =
     (let rc = locks_rc;
          tr1 = tr @ [Goopenssl_init_locks]
      in if rc = 0 then (rc, tr1 @ [CRYPTO_set_locking_callback]) else (rc, tr1))"

definition OpenSSL_add_all_algorithms_not_a_macro :: "call_trace \<Rightarrow> call_trace" where
  "OpenSSL_add_all_algorithms_not_a_macro tr = tr @ [OpenSSL_add_all_algorithms]"

text \<open>How a run of \<^verbatim>\<open>init\<close> ends: it returns, or it panics with an error value.\<close>

datatype init_result = Returned | Panic go_error

text \<open>
  \<^verbatim>\<open>
  func init() {
      C.OPENSSL_config(nil)
      C.ENGINE_load_builtin_engines()
      C.SSL_load_error_strings()
      C.SSL_library_init()
      C.OpenSSL_add_all_algorithms_not_a_macro()
      rc := C.Goopenssl_init_threadsafety()
      if rc != 0 {
          panic(fmt.Errorf("Goopenssl_init_locks failed with %d", rc))
      }
  }
  \<close>
\<close>

definition init :: "c_int \<Rightarrow> call_trace \<Rightarrow> init_result \<times> call_trace" where
  "init locks_rc tr0 =
     (let tr1 = tr0 @ [OPENSSL_config];
          tr2 = tr1 @ [ENGINE_load_builtin_engines];
          tr3 = tr2 @ [SSL_load_error_strings];
          tr4 = tr3 @ [SSL_library_init];
          tr5 = OpenSSL_add_all_algorithms_not_a_macro tr4;
          (rc, tr6) = Goopenssl_init_threadsafety locks_rc tr5
      in if rc \<noteq> 0
         then (Panic (ErrorString (''Goopenssl_init_locks failed with '' @ fmt_d (sint rc))), tr6)
         else (Returned, tr6))"

section \<open>The error queue\<close>

text \<open>
  The three string tables of the native library. Each lookup returns a C string, or the
  null pointer when no string is registered for the code.
\<close>

record err_strings =
  ERR_lib_error_string :: "c_ulong \<Rightarrow> string option"
  ERR_func_error_string :: "c_ulong \<Rightarrow> string option"
  ERR_reason_error_string :: "c_ulong \<Rightarrow> string option"

text \<open>Every thread has its own queue of error codes, oldest first.\<close>

type_synonym err_queues = "thread_id \<Rightarrow> c_ulong list"

text \<open>
  \<^verbatim>\<open>ERR_get_error\<close>, called on thread \<open>t\<close>: removes and returns the
  oldest code of that thread's queue, or returns 0 when the queue is empty.
\<close>

definition ERR_get_error :: "thread_id \<Rightarrow> err_queues \<Rightarrow> c_ulong \<times> err_queues" where
  "ERR_get_error t qs = (case qs t of [] \<Rightarrow> (0, qs) | c # cs \<Rightarrow> (c, qs(t := cs)))"

text \<open>
  The line built for one code:
  \<^verbatim>\<open>
  fmt.Sprintf("%s:%s:%s",
      C.GoString(C.ERR_lib_error_string(err)),
      C.GoString(C.ERR_func_error_string(err)),
      C.GoString(C.ERR_reason_error_string(err)))
  \<close>
\<close>

definition error_line :: "err_strings \<Rightarrow> c_ulong \<Rightarrow> string" where
  "error_line T err =
     GoString (ERR_lib_error_string T err) @ '':'' @
     GoString (ERR_func_error_string T err) @ '':'' @
     GoString (ERR_reason_error_string T err)"

text \<open>
  The loop of \<^verbatim>\<open>errorFromErrorQueue\<close>, run on thread \<open>t\<close> with the
  slice \<^verbatim>\<open>errs\<close> built so far:
  \<^verbatim>\<open>
  for {
      err := C.ERR_get_error()
      if err == 0 {
          break
      }
      errs = append(errs, fmt.Sprintf(...))
  }
  \<close>
  The loop has no bound of its own, so the model is a partial function: \<^term>\<open>None\<close>
  stands for a loop that never leaves.
\<close>

partial_function (option) errorFromErrorQueue_loop ::
  "err_strings \<Rightarrow> thread_id \<Rightarrow> err_queues \<Rightarrow> string list \<Rightarrow> (string list \<times> err_queues) option"
where
  "errorFromErrorQueue_loop T t qs errs =
     (case ERR_get_error t qs of
        (err, qs') \<Rightarrow>
          if err = 0 then Some (errs, qs')
          else errorFromErrorQueue_loop T t qs' (errs @ [error_line T err]))"

declare errorFromErrorQueue_loop.simps [code]

text \<open>
  \<^verbatim>\<open>
  func errorFromErrorQueue() error {
      var errs []string
      for { ... }
      return errors.New(fmt.Sprintf("SSL errors: %s", strings.Join(errs, "\n")))
  }
  \<close>
  The result pairs the returned error with the queues as the call leaves them.
\<close>

definition errorFromErrorQueue ::
  "err_strings \<Rightarrow> thread_id \<Rightarrow> err_queues \<Rightarrow> (go_error \<times> err_queues) option"
where
  "errorFromErrorQueue T t qs =
     (case errorFromErrorQueue_loop T t qs [] of
        None \<Rightarrow> None
      | Some (errs, qs') \<Rightarrow>
          Some (errors_New (''SSL errors: '' @ Join errs [CHR 0x0A]), qs'))"

section \<open>The process\<close>

text \<open>
  A Go process that uses the package. Program initialization belongs to the Go runtime:
  it runs the package's \<^verbatim>\<open>init\<close> function once, on one goroutine, before
  \<^verbatim>\<open>main\<close> starts, and the language lets no code refer to
  \<^verbatim>\<open>init\<close>, so nothing runs it again. A panic in \<^verbatim>\<open>init\<close>
  ends the process before the program does anything. After a normal return the program
  can call \<^verbatim>\<open>errorFromErrorQueue\<close> on some thread; every other native
  operation is seen only through what it does to the error queues.
\<close>

datatype event =
    CallErrorFromErrorQueue thread_id
  | NativeOperation "err_queues \<Rightarrow> err_queues"

record process =
  native_calls :: call_trace
  error_queues :: err_queues

text \<open>Start-up: \<^verbatim>\<open>init\<close> runs on a fresh native library.\<close>

definition go_start :: "c_int \<Rightarrow> init_result \<times> process" where
  "go_start locks_rc =
     (case init locks_rc [] of
        (r, tr) \<Rightarrow> (r, \<lparr>native_calls = tr, error_queues = (\<lambda>t. [])\<rparr>))"

text \<open>
  One step of the running program. \<^verbatim>\<open>errorFromErrorQueue\<close> calls none of
  the setup entry points, so it leaves the setup trace alone; the error it returns goes
  to the caller and is not kept in the process state.
\<close>

fun go_step :: "err_strings \<Rightarrow> event \<Rightarrow> process \<Rightarrow> process option" where
  "go_step T (CallErrorFromErrorQueue t) p =
     (case errorFromErrorQueue T t (error_queues p) of
        None \<Rightarrow> None
      | Some (e, qs') \<Rightarrow> Some (p\<lparr>error_queues := qs'\<rparr>))"
| "go_step T (NativeOperation f) p = Some (p\<lparr>error_queues := f (error_queues p)\<rparr>)"

fun go_steps :: "err_strings \<Rightarrow> event list \<Rightarrow> process \<Rightarrow> process option" where
  "go_steps T [] p = Some p"
| "go_steps T (e # es) p =
     (case go_step T e p of None \<Rightarrow> None | Some p' \<Rightarrow> go_steps T es p')"

text \<open>
  The life of a process: start-up, then the program's steps unless
  \<^verbatim>\<open>init\<close> panicked. \<^term>\<open>None\<close> stands for a step that never returns.
\<close>

definition go_process ::
  "c_int \<Rightarrow> err_strings \<Rightarrow> event list \<Rightarrow> (init_result \<times> process) option"
where
  "go_process locks_rc T evs =
     (case go_start locks_rc of
        (Returned, p) \<Rightarrow>
          (case go_steps T evs p of None \<Rightarrow> None | Some p' \<Rightarrow> Some (Returned, p'))
      | (Panic e, p) \<Rightarrow> Some (Panic e, p))"

subsection \<open>Concrete inputs\<close>

text \<open>
  String tables and a family of queue states at which the theorems below are
  instantiated. In \<open>sample_strings\<close> only code 1 has a function name, and the
  reason differs for codes 1, 2 and the rest. In \<open>multiline_strings\<close> every reason
  is a text of two lines. Only thread 0 has queued codes.
\<close>

definition sample_strings :: err_strings where
  "sample_strings =
     \<lparr>ERR_lib_error_string = (\<lambda>c. Some ''SSL routines''),
      ERR_func_error_string = (\<lambda>c. if c = 1 then Some ''SSL3_GET_RECORD'' else None),
      ERR_reason_error_string =
        (\<lambda>c. if c = 1 then Some ''wrong version number''
             else if c = 2 then Some ''bad record mac''
             else Some ''unknown protocol'')\<rparr>"

definition multiline_strings :: err_strings where
  "multiline_strings =
     \<lparr>ERR_lib_error_string = (\<lambda>c. Some ''engine''),
      ERR_func_error_string = (\<lambda>c. Some ''load''),
      ERR_reason_error_string = (\<lambda>c. Some (''failed'' @ [CHR 0x0A] @ ''see log''))\<rparr>"

definition sample_queues :: "c_ulong list \<Rightarrow> err_queues" where
  "sample_queues q = (\<lambda>t. if t = 0 then q else [])"

section \<open>Auxiliary facts\<close>

lemma get_empty: "qs t = [] \<Longrightarrow> ERR_get_error t qs = (0, qs)"
  by (simp add: ERR_get_error_def)

lemma get_cons: "qs t = c # cs \<Longrightarrow> ERR_get_error t qs = (c, qs(t := cs))"
  by (simp add: ERR_get_error_def)

lemma loop_char:
  "errorFromErrorQueue_loop T t qs errs =
     Some (errs @ map (error_line T) (takeWhile (\<lambda>c. c \<noteq> 0) (qs t)),
           qs(t := drop 1 (dropWhile (\<lambda>c. c \<noteq> 0) (qs t))))"
proof (induction "qs t" arbitrary: qs errs)
  case Nil
  then have e: "qs t = []" by simp
  then have "qs(t := []) = qs" by (metis fun_upd_triv)
  with e show ?case
    by (subst errorFromErrorQueue_loop.simps) (simp add: get_empty)
next
  case (Cons c cs)
  then have e: "qs t = c # cs" by simp
  show ?case
  proof (cases "c = 0")
    case True
    with e show ?thesis
      by (subst errorFromErrorQueue_loop.simps) (simp add: get_cons)
  next
    case False
    have "cs = (qs(t := cs)) t" by simp
    from Cons.hyps(1)[of "qs(t := cs)" "errs @ [error_line T c]", OF this] False e show ?thesis
      by (subst errorFromErrorQueue_loop.simps) (simp add: get_cons)
  qed
qed

lemma nonzero_take: "0 \<notin> set q \<Longrightarrow> takeWhile (\<lambda>c. c \<noteq> 0) q = q"
  by (induction q) auto

lemma nonzero_drop: "0 \<notin> set q \<Longrightarrow> dropWhile (\<lambda>c. c \<noteq> 0) q = []"
  by (induction q) auto


lemma drain_char:
  "errorFromErrorQueue T t qs =
     Some (ErrorString (''SSL errors: '' @ Join (map (error_line T) (takeWhile (\<lambda>c. c \<noteq> 0) (qs t))) [CHR 0x0A]),
           qs(t := drop 1 (dropWhile (\<lambda>c. c \<noteq> 0) (qs t))))"
  by (simp add: errorFromErrorQueue_def loop_char errors_New_def)

lemma drain_nonzero:
  "0 \<notin> set (qs t) \<Longrightarrow>
   errorFromErrorQueue T t qs =
     Some (ErrorString (''SSL errors: '' @ Join (map (error_line T) (qs t)) [CHR 0x0A]), qs(t := []))"
  by (simp add: drain_char nonzero_take nonzero_drop)

lemma Join_Cons: "Join (x # xs) sep = x @ concat (map (\<lambda>y. sep @ y) xs)"
  by (induction xs arbitrary: x) auto

lemma Join_split:
  "Join (xs @ a # rest) sep = concat (map (\<lambda>x. x @ sep) xs) @ a @ concat (map (\<lambda>y. sep @ y) rest)"
proof (induction xs)
  case Nil
  show ?case by (simp add: Join_Cons)
next
  case (Cons x xs)
  have "Join ((x # xs) @ a # rest) sep = x @ sep @ Join (xs @ a # rest) sep"
    by (cases xs) simp_all
  with Cons show ?case by simp
qed

lemma sublist_Join: "x \<in> set xs \<Longrightarrow> sublist x (Join xs sep)"
proof -
  assume "x \<in> set xs"
  then obtain ys zs where "xs = ys @ x # zs" by (auto simp: in_set_conv_decomp)
  then show ?thesis
    unfolding sublist_def by (metis Join_split)
qed

lemma length_take_drop: "length (takeWhile P xs) + length (drop 1 (dropWhile P xs)) \<le> length xs"
proof -
  have "length xs = length (takeWhile P xs) + length (dropWhile P xs)"
    by (metis length_append takeWhile_dropWhile_id)
  then show ?thesis by simp
qed

lemma sublist_prepend: "sublist x ys \<Longrightarrow> sublist x (p @ ys)"
  unfolding sublist_def by (metis append.assoc)

lemma sample_queue_at: "sample_queues q 0 = q"
  by (simp add: sample_queues_def)

lemma sample_lines:
  "error_line sample_strings 1 = ''SSL routines:SSL3_GET_RECORD:wrong version number''"
  "error_line sample_strings 2 = ''SSL routines::bad record mac''"
  "error_line sample_strings 3 = ''SSL routines::unknown protocol''"
  by (simp_all add: sample_strings_def error_line_def GoString_def)

lemma multiline_line:
  "error_line multiline_strings c = ''engine:load:failed'' @ [CHR 0x0A] @ ''see log''"
  by (simp add: multiline_strings_def error_line_def GoString_def)

lemma go_steps_calls:
  "\<exists>p'. go_steps T evs p = Some p' \<and> native_calls p' = native_calls p"
proof (induction evs arbitrary: p)
  case Nil
  show ?case by simp
next
  case (Cons e evs)
  obtain p1 where s: "go_step T e p = Some p1" and c: "native_calls p1 = native_calls p"
    by (cases e) (simp_all add: drain_char)
  from Cons [of p1] s c show ?case by simp
qed

lemma sample_drain_zero:
  "errorFromErrorQueue sample_strings 0 (sample_queues [1, 0, 2]) =
     Some (ErrorString ''SSL errors: SSL routines:SSL3_GET_RECORD:wrong version number'',
           (sample_queues [1, 0, 2])(0 := [2]))"
  by (simp add: drain_char sample_queue_at sample_lines)

section \<open>Initialization sequence\<close>

text \<open>
  Claim C1. In every process whose lock allocation succeeds, whatever the program does
  afterwards, the native setup steps have been called exactly once each and in this
  order: configuration defaults, built-in engines, error strings, library
  initialization, all algorithms, lock-bank allocation, and last the registration of the
  locking callback; \<^verbatim>\<open>init\<close> has returned normally. For any allocation
  result the process has made the first six calls once, and the registration follows
  only when the result is 0. The same holds of a single run of \<^verbatim>\<open>init\<close>
  after any earlier calls: it appends the steps in this order.
\<close>

theorem init_setup_order:
  "(\<exists>p. go_process 0 T evs = Some (Returned, p)
        \<and> native_calls p = [OPENSSL_config, ENGINE_load_builtin_engines, SSL_load_error_strings,
             SSL_library_init, OpenSSL_add_all_algorithms, Goopenssl_init_locks,
             CRYPTO_set_locking_callback]
        \<and> count_list (native_calls p) c = 1)
   \<and> (\<exists>p. go_process rc T evs =
            Some (if rc = 0 then Returned
                  else Panic (ErrorString (''Goopenssl_init_locks failed with '' @ fmt_d (sint rc))), p)
        \<and> native_calls p = [OPENSSL_config, ENGINE_load_builtin_engines, SSL_load_error_strings,
             SSL_library_init, OpenSSL_add_all_algorithms, Goopenssl_init_locks]
             @ (if rc = 0 then [CRYPTO_set_locking_callback] else []))
   \<and> init 0 tr = (Returned, tr @ [OPENSSL_config, ENGINE_load_builtin_engines, SSL_load_error_strings,
       SSL_library_init, OpenSSL_add_all_algorithms, Goopenssl_init_locks, CRYPTO_set_locking_callback])
   \<and> count_list (snd (init 0 [])) c = 1
   \<and> snd (init rc tr) = tr @ [OPENSSL_config, ENGINE_load_builtin_engines, SSL_load_error_strings,
       SSL_library_init, OpenSSL_add_all_algorithms, Goopenssl_init_locks]
       @ (if rc = 0 then [CRYPTO_set_locking_callback] else [])"
proof -
  let ?six = "[OPENSSL_config, ENGINE_load_builtin_engines, SSL_load_error_strings,
       SSL_library_init, OpenSSL_add_all_algorithms, Goopenssl_init_locks]"
  have any: "init rc tr = (if rc = 0 then Returned
                 else Panic (ErrorString (''Goopenssl_init_locks failed with '' @ fmt_d (sint rc))),
               tr @ ?six @ (if rc = 0 then [CRYPTO_set_locking_callback] else []))" for rc tr
    by (simp add: init_def Goopenssl_init_threadsafety_def OpenSSL_add_all_algorithms_not_a_macro_def)
  have ok: "init 0 tr = (Returned, tr @ ?six @ [CRYPTO_set_locking_callback])" for tr
    by (simp add: any)
  have once: "count_list (snd (init 0 [])) c = 1"
    by (cases c) (simp_all add: ok)
  have snd_any: "snd (init rc tr) = tr @ ?six @ (if rc = 0 then [CRYPTO_set_locking_callback] else [])"
    by (simp add: any)
  have run: "\<exists>p. go_process rc T evs =
            Some (if rc = 0 then Returned
                  else Panic (ErrorString (''Goopenssl_init_locks failed with '' @ fmt_d (sint rc))), p)
        \<and> native_calls p = ?six @ (if rc = 0 then [CRYPTO_set_locking_callback] else [])" for rc
  proof (cases "rc = 0")
    case True
    let ?p0 = "\<lparr>native_calls = ?six @ [CRYPTO_set_locking_callback], error_queues = (\<lambda>t. [])\<rparr>"
    from go_steps_calls [of T evs ?p0] obtain p' where
      "go_steps T evs ?p0 = Some p'" and "native_calls p' = native_calls ?p0" by blast
    with True show ?thesis
      by (simp add: go_process_def go_start_def ok)
  next
    case False
    then show ?thesis
      by (simp add: go_process_def go_start_def any)
  qed
  from run [of 0] obtain p where
    r0: "go_process 0 T evs = Some (Returned, p)"
    and c0: "native_calls p = ?six @ [CRYPTO_set_locking_callback]"
    by auto
  from c0 have n0: "count_list (native_calls p) c = 1"
    by (cases c) simp_all
  from r0 c0 n0 have first: "\<exists>p. go_process 0 T evs = Some (Returned, p)
        \<and> native_calls p = [OPENSSL_config, ENGINE_load_builtin_engines, SSL_load_error_strings,
             SSL_library_init, OpenSSL_add_all_algorithms, Goopenssl_init_locks,
             CRYPTO_set_locking_callback]
        \<and> count_list (native_calls p) c = 1"
    by simp
  note second = run [of rc]
  from first second ok [of tr] once snd_any show ?thesis
    by (intro conjI) simp_all
qed

text \<open>
  Claim C2. When the lock allocator returns a nonzero code, \<^verbatim>\<open>init\<close>
  does not return: it panics with the error
  \<^verbatim>\<open>Goopenssl_init_locks failed with <rc>\<close>. The locking callback is
  not registered by that run: the trace holds as many registrations as before, none
  when it started empty.
\<close>

theorem init_locks_failure_panics:
  assumes "rc \<noteq> 0"
  shows "fst (init rc tr) = Panic (ErrorString (''Goopenssl_init_locks failed with '' @ fmt_d (sint rc)))
       \<and> fst (init rc tr) \<noteq> Returned
       \<and> count_list (snd (init rc tr)) CRYPTO_set_locking_callback = count_list tr CRYPTO_set_locking_callback
       \<and> CRYPTO_set_locking_callback \<notin> set (snd (init rc []))"
  using assms
  by (simp add: init_def Goopenssl_init_threadsafety_def OpenSSL_add_all_algorithms_not_a_macro_def)

theorem init_locks_failure_panics_witness:
  "(1::c_int) \<noteq> 0
   \<and> fst (init 1 []) = Panic (ErrorString ''Goopenssl_init_locks failed with 1'')
   \<and> CRYPTO_set_locking_callback \<notin> set (snd (init 1 []))"
  using init_locks_failure_panics [of 1 "[]"]
  by (simp add: fmt_d_def dec_nat.simps digit_char_def)

section \<open>Draining the error queue\<close>




text \<open>
  Claim C4, amended. For every queue state whose codes are all nonzero, the message of
  the returned error contains the line of every queued code, not only the first one,
  and in queue order: whenever code \<open>a\<close> was queued before code \<open>b\<close>, the
  message is the prefix and the lines of the codes before \<open>a\<close>, then the line of
  \<open>a\<close>, then the lines of the codes between, then the line of \<open>b\<close>, then the
  lines of the codes after \<open>b\<close>. For codes A, B, C pushed in that order the text of
  A comes before that of B, which comes before that of C.
\<close>

theorem drain_oldest_first:
  assumes "0 \<notin> set (qs t)"
  shows "\<exists>msg. errorFromErrorQueue T t qs = Some (ErrorString msg, qs(t := []))
         \<and> (\<forall>c \<in> set (qs t). sublist (error_line T c) msg)
         \<and> (qs t = xs @ a # ys @ b # zs \<longrightarrow>
              msg = (''SSL errors: '' @ concat (map (\<lambda>c. error_line T c @ [CHR 0x0A]) xs))
                    @ error_line T a
                    @ ([CHR 0x0A] @ concat (map (\<lambda>c. error_line T c @ [CHR 0x0A]) ys))
                    @ error_line T b
                    @ concat (map (\<lambda>c. [CHR 0x0A] @ error_line T c) zs))"
proof -
  let ?nl = "[CHR 0x0A]"
  let ?msg = "''SSL errors: '' @ Join (map (error_line T) (qs t)) ?nl"
  have ret: "errorFromErrorQueue T t qs = Some (ErrorString ?msg, qs(t := []))"
    using assms by (rule drain_nonzero)
  have every: "sublist (error_line T c) ?msg" if "c \<in> set (qs t)" for c
  proof -
    from that have "error_line T c \<in> set (map (error_line T) (qs t))" by simp
    then have "sublist (error_line T c) (Join (map (error_line T) (qs t)) ?nl)"
      by (rule sublist_Join)
    then show ?thesis
      by (rule sublist_prepend)
  qed
  have order: "?msg = (''SSL errors: '' @ concat (map (\<lambda>c. error_line T c @ ?nl) xs))
                    @ error_line T a
                    @ (?nl @ concat (map (\<lambda>c. error_line T c @ ?nl) ys))
                    @ error_line T b
                    @ concat (map (\<lambda>c. ?nl @ error_line T c) zs)"
    if split: "qs t = xs @ a # ys @ b # zs"
  proof -
    have "Join (map (error_line T) (xs @ a # ys @ b # zs)) ?nl =
            concat (map (\<lambda>x. x @ ?nl) (map (error_line T) xs)) @ error_line T a
            @ concat (map (\<lambda>y. ?nl @ y) (map (error_line T) (ys @ b # zs)))"
      using Join_split [of "map (error_line T) xs" "error_line T a" "map (error_line T) (ys @ b # zs)" ?nl]
      by simp
    moreover have "concat (map (\<lambda>y. ?nl @ y) (map (error_line T) (ys @ b # zs))) =
        ?nl @ concat (map (\<lambda>c. error_line T c @ ?nl) ys) @ error_line T b
          @ concat (map (\<lambda>c. ?nl @ error_line T c) zs)"
      by (induction ys) (simp_all add: comp_def)
    ultimately show ?thesis
      by (simp add: split comp_def)
  qed
  from ret every order show ?thesis by blast
qed

theorem drain_oldest_first_witness:
  "0 \<notin> set (sample_queues [1, 2, 3] 0)
   \<and> sample_queues [1, 2, 3] 0 = [] @ 1 # [] @ 2 # [3]
   \<and> errorFromErrorQueue sample_strings 0 (sample_queues [1, 2, 3]) =
       Some (ErrorString (''SSL errors: SSL routines:SSL3_GET_RECORD:wrong version number''
                          @ [CHR 0x0A] @ ''SSL routines::bad record mac''
                          @ [CHR 0x0A] @ ''SSL routines::unknown protocol''),
             (sample_queues [1, 2, 3])(0 := []))"
proof -
  have h: "0 \<notin> set (sample_queues [1, 2, 3] 0)"
    by (simp add: sample_queue_at)
  have s: "sample_queues [1, 2, 3] 0 = [] @ 1 # [] @ 2 # [3]"
    by (simp add: sample_queue_at)
  from drain_oldest_first [of "sample_queues [1, 2, 3]" 0 sample_strings "[]" 1 "[]" 2 "[3]", OF h]
  obtain msg where
    r: "errorFromErrorQueue sample_strings 0 (sample_queues [1, 2, 3]) =
          Some (ErrorString msg, (sample_queues [1, 2, 3])(0 := []))"
    and m: "sample_queues [1, 2, 3] 0 = [] @ 1 # [] @ 2 # [3] \<longrightarrow>
            msg = (''SSL errors: '' @ concat (map (\<lambda>c. error_line sample_strings c @ [CHR 0x0A]) []))
                    @ error_line sample_strings 1
                    @ ([CHR 0x0A] @ concat (map (\<lambda>c. error_line sample_strings c @ [CHR 0x0A]) []))
                    @ error_line sample_strings 2
                    @ concat (map (\<lambda>c. [CHR 0x0A] @ error_line sample_strings c) [3])"
    by blast
  from m s have "msg = ''SSL errors: SSL routines:SSL3_GET_RECORD:wrong version number''
                          @ [CHR 0x0A] @ ''SSL routines::bad record mac''
                          @ [CHR 0x0A] @ ''SSL routines::unknown protocol''"
    by (simp add: sample_lines)
  with r h s show ?thesis by simp
qed

text \<open>
  Claim C4 as stated fails for a queue state with a 0 in it. With 1, 0, 2 queued the
  message holds the line of code 1 only; the line of code 2 occurs nowhere in it.
\<close>

theorem drain_misses_code_behind_zero:
  "sample_queues [1, 0, 2] 0 = [1, 0, 2]
   \<and> errorFromErrorQueue sample_strings 0 (sample_queues [1, 0, 2]) =
     Some (ErrorString ''SSL errors: SSL routines:SSL3_GET_RECORD:wrong version number'',
           (sample_queues [1, 0, 2])(0 := [2]))
   \<and> error_line sample_strings 2 = ''SSL routines::bad record mac''
   \<and> \<not> sublist ''SSL routines::bad record mac''
          ''SSL errors: SSL routines:SSL3_GET_RECORD:wrong version number''"
proof -
  have "\<not> sublist ''SSL routines::bad record mac''
          ''SSL errors: SSL routines:SSL3_GET_RECORD:wrong version number''"
  proof
    assume "sublist ''SSL routines::bad record mac''
          ''SSL errors: SSL routines:SSL3_GET_RECORD:wrong version number''"
    then have "set ''SSL routines::bad record mac''
        \<subseteq> set ''SSL errors: SSL routines:SSL3_GET_RECORD:wrong version number''"
      by (rule set_mono_sublist)
    then show False by simp
  qed
  then show ?thesis
    by (simp add: sample_drain_zero sample_queue_at sample_lines)
qed

text \<open>
  Claim C5, amended. When the calling thread's queue holds exactly two nonzero error
  codes, and none of the strings resolved for them contains a newline, the message of
  the returned error has exactly two lines, separated by one newline. The second line
  is \<^verbatim>\<open><subsystem>:<function>:<reason>\<close> of the second code; the first
  line is the message prefix \<^verbatim>\<open>SSL errors: \<close> followed by
  \<^verbatim>\<open><subsystem>:<function>:<reason>\<close> of the first code.
\<close>

theorem drain_two_codes_two_lines:
  assumes "qs t = [c1, c2]" and "c1 \<noteq> 0" and "c2 \<noteq> 0"
    and "\<forall>c \<in> {c1, c2}.
           CHR 0x0A \<notin> set (GoString (ERR_lib_error_string T c))
                       \<union> set (GoString (ERR_func_error_string T c))
                       \<union> set (GoString (ERR_reason_error_string T c))"
  shows "\<exists>l1 l2. errorFromErrorQueue T t qs = Some (ErrorString (l1 @ [CHR 0x0A] @ l2), qs(t := []))
       \<and> l1 = ''SSL errors: '' @ GoString (ERR_lib_error_string T c1) @ '':''
                @ GoString (ERR_func_error_string T c1) @ '':''
                @ GoString (ERR_reason_error_string T c1)
       \<and> l2 = GoString (ERR_lib_error_string T c2) @ '':''
                @ GoString (ERR_func_error_string T c2) @ '':''
                @ GoString (ERR_reason_error_string T c2)
       \<and> CHR 0x0A \<notin> set l1 \<and> CHR 0x0A \<notin> set l2"
proof -
  from assms(1-3) have nz: "0 \<notin> set (qs t)" by auto
  have ret: "errorFromErrorQueue T t qs =
      Some (ErrorString ((''SSL errors: '' @ error_line T c1) @ [CHR 0x0A] @ error_line T c2), qs(t := []))"
    using drain_nonzero [of qs t T, OF nz] assms(1) by simp
  have n1: "CHR 0x0A \<notin> set (''SSL errors: '' @ error_line T c1)"
    using assms(4) by (simp add: error_line_def)
  have n2: "CHR 0x0A \<notin> set (error_line T c2)"
    using assms(4) by (simp add: error_line_def)
  from ret n1 n2 show ?thesis
    by (simp add: error_line_def)
qed

theorem drain_two_codes_two_lines_witness:
  "sample_queues [1, 2] 0 = [1, 2] \<and> (1::c_ulong) \<noteq> 0 \<and> (2::c_ulong) \<noteq> 0
   \<and> CHR 0x0A \<notin> set (GoString (ERR_lib_error_string sample_strings 1))
                   \<union> set (GoString (ERR_func_error_string sample_strings 1))
                   \<union> set (GoString (ERR_reason_error_string sample_strings 1))
   \<and> CHR 0x0A \<notin> set (GoString (ERR_lib_error_string sample_strings 2))
                   \<union> set (GoString (ERR_func_error_string sample_strings 2))
                   \<union> set (GoString (ERR_reason_error_string sample_strings 2))
   \<and> errorFromErrorQueue sample_strings 0 (sample_queues [1, 2]) =
       Some (ErrorString (''SSL errors: SSL routines:SSL3_GET_RECORD:wrong version number''
                          @ [CHR 0x0A] @ ''SSL routines::bad record mac''),
             (sample_queues [1, 2])(0 := []))"
proof -
  have q: "sample_queues [1, 2] 0 = [1, 2]"
    by (simp add: sample_queue_at)
  have nl: "\<forall>c \<in> {1, 2}.
           CHR 0x0A \<notin> set (GoString (ERR_lib_error_string sample_strings c))
                       \<union> set (GoString (ERR_func_error_string sample_strings c))
                       \<union> set (GoString (ERR_reason_error_string sample_strings c))"
    by (simp add: sample_strings_def GoString_def)
  have s: "GoString (ERR_lib_error_string sample_strings 1) = ''SSL routines''"
    "GoString (ERR_func_error_string sample_strings 1) = ''SSL3_GET_RECORD''"
    "GoString (ERR_reason_error_string sample_strings 1) = ''wrong version number''"
    "GoString (ERR_lib_error_string sample_strings 2) = ''SSL routines''"
    "GoString (ERR_func_error_string sample_strings 2) = []"
    "GoString (ERR_reason_error_string sample_strings 2) = ''bad record mac''"
    by (simp_all add: sample_strings_def GoString_def)
  from drain_two_codes_two_lines [of "sample_queues [1, 2]" 0 1 2 sample_strings, OF q _ _ nl]
  obtain l1 l2 where
    r: "errorFromErrorQueue sample_strings 0 (sample_queues [1, 2]) =
          Some (ErrorString (l1 @ [CHR 0x0A] @ l2), (sample_queues [1, 2])(0 := []))"
    and l1: "l1 = ''SSL errors: SSL routines:SSL3_GET_RECORD:wrong version number''"
    and l2: "l2 = ''SSL routines::bad record mac''"
    unfolding s by auto
  from r l1 l2 q nl show ?thesis by simp
qed

text \<open>
  Claim C5 as stated fails in two ways. When a resolved string holds a newline, two
  queued codes give more than two lines: with the two-line reasons of
  \<open>multiline_strings\<close> the message has three newlines, so four lines. And with
  newline-free strings the first of the two lines is not
  \<^verbatim>\<open><subsystem>:<function>:<reason>\<close> of the first code: it starts with
  the message prefix, which brings a colon of its own, so the line has three colons
  where the pattern has two.
\<close>

theorem drain_two_codes_not_two_pattern_lines:
  "sample_queues [1, 2] 0 = [1, 2]
   \<and> errorFromErrorQueue multiline_strings 0 (sample_queues [1, 2]) =
       Some (ErrorString (''SSL errors: engine:load:failed'' @ [CHR 0x0A] @ ''see log''
                          @ [CHR 0x0A] @ ''engine:load:failed'' @ [CHR 0x0A] @ ''see log''),
             (sample_queues [1, 2])(0 := []))
   \<and> count_list (''SSL errors: engine:load:failed'' @ [CHR 0x0A] @ ''see log''
                   @ [CHR 0x0A] @ ''engine:load:failed'' @ [CHR 0x0A] @ ''see log'') (CHR 0x0A) = 3
   \<and> errorFromErrorQueue sample_strings 0 (sample_queues [1, 2]) =
       Some (ErrorString (''SSL errors: SSL routines:SSL3_GET_RECORD:wrong version number''
                          @ [CHR 0x0A] @ ''SSL routines::bad record mac''),
             (sample_queues [1, 2])(0 := []))
   \<and> ''SSL errors: SSL routines:SSL3_GET_RECORD:wrong version number''
        \<noteq> error_line sample_strings 1
   \<and> count_list ''SSL errors: SSL routines:SSL3_GET_RECORD:wrong version number'' CHR '':'' = 3"
proof -
  have m: "errorFromErrorQueue multiline_strings 0 (sample_queues [1, 2]) =
       Some (ErrorString (''SSL errors: engine:load:failed'' @ [CHR 0x0A] @ ''see log''
                          @ [CHR 0x0A] @ ''engine:load:failed'' @ [CHR 0x0A] @ ''see log''),
             (sample_queues [1, 2])(0 := []))"
    by (simp add: drain_char sample_queue_at multiline_line)
  have s: "errorFromErrorQueue sample_strings 0 (sample_queues [1, 2]) =
       Some (ErrorString (''SSL errors: SSL routines:SSL3_GET_RECORD:wrong version number''
                          @ [CHR 0x0A] @ ''SSL routines::bad record mac''),
             (sample_queues [1, 2])(0 := []))"
    by (simp add: drain_char sample_queue_at sample_lines)
  have c: "count_list (''SSL errors: engine:load:failed'' @ [CHR 0x0A] @ ''see log''
                   @ [CHR 0x0A] @ ''engine:load:failed'' @ [CHR 0x0A] @ ''see log'') (CHR 0x0A) = 3"
    by simp
  have d: "''SSL errors: SSL routines:SSL3_GET_RECORD:wrong version number''
        \<noteq> error_line sample_strings 1"
    by (simp add: sample_lines)
  have k: "count_list ''SSL errors: SSL routines:SSL3_GET_RECORD:wrong version number'' CHR '':'' = 3"
    by simp
  from m s c d k show ?thesis
    by (simp only: sample_queue_at simp_thms)
qed

text \<open>
  Claim C6. Draining an empty queue returns: the loop builds zero lines, the returned
  error is not \<^verbatim>\<open>nil\<close>, its message holds the prefix and no record, and
  the queues are left as they were.
\<close>

theorem drain_empty_queue:
  assumes "qs t = []"
  shows "errorFromErrorQueue_loop T t qs [] = Some ([], qs)
       \<and> (\<exists>e. errorFromErrorQueue T t qs = Some (e, qs) \<and> e \<noteq> ErrNil)
       \<and> errorFromErrorQueue T t qs = Some (ErrorString ''SSL errors: '', qs)"
proof -
  from assms have same: "qs(t := []) = qs" by (metis fun_upd_triv)
  have l: "errorFromErrorQueue_loop T t qs [] = Some ([], qs)"
    using assms same by (simp add: loop_char)
  have d: "errorFromErrorQueue T t qs = Some (ErrorString ''SSL errors: '', qs)"
    using assms same by (simp add: drain_char)
  from l d show ?thesis by simp
qed

theorem drain_empty_queue_witness:
  "sample_queues [] 0 = []
   \<and> errorFromErrorQueue sample_strings 0 (sample_queues []) =
       Some (ErrorString ''SSL errors: '', sample_queues [])"
  using drain_empty_queue [of "sample_queues []" 0 sample_strings]
  by (simp add: sample_queue_at)

text \<open>
  Claim C7. The line built for a code is its three resolved strings, subsystem name,
  function name and reason, in that order, joined with \<^verbatim>\<open>:\<close>; the lines
  the loop returns are exactly these, one for each code popped.
\<close>

theorem error_record_three_components:
  "error_line T c =
     Join [GoString (ERR_lib_error_string T c), GoString (ERR_func_error_string T c),
           GoString (ERR_reason_error_string T c)] '':''
   \<and> (\<exists>qs'. errorFromErrorQueue_loop T t qs [] =
         Some (map (\<lambda>c. Join [GoString (ERR_lib_error_string T c), GoString (ERR_func_error_string T c),
                               GoString (ERR_reason_error_string T c)] '':'')
                 (takeWhile (\<lambda>c. c \<noteq> 0) (qs t)), qs'))"
proof -
  have one: "error_line T c =
     Join [GoString (ERR_lib_error_string T c), GoString (ERR_func_error_string T c),
           GoString (ERR_reason_error_string T c)] '':''" for c
    by (simp add: error_line_def)
  then have "error_line T = (\<lambda>c. Join [GoString (ERR_lib_error_string T c), GoString (ERR_func_error_string T c),
           GoString (ERR_reason_error_string T c)] '':'')"
    by (rule ext)
  with loop_char [of T t qs "[]"] one [of c] show ?thesis by simp
qed

text \<open>
  Claim C9. Whatever lines the loop has built, none included, the message of the
  returned error is \<^verbatim>\<open>SSL errors: \<close> followed by the lines joined with
  the newline character; so every message starts with \<^verbatim>\<open>SSL errors: \<close>,
  and for an empty queue the message is exactly \<^verbatim>\<open>SSL errors: \<close>.
\<close>

theorem drain_message_format:
  "(\<exists>errs qs' msg. errorFromErrorQueue_loop T t qs [] = Some (errs, qs')
       \<and> errorFromErrorQueue T t qs = Some (ErrorString msg, qs')
       \<and> msg = ''SSL errors: '' @ Join errs [CHR 0x0A]
       \<and> prefix ''SSL errors: '' msg)
   \<and> errorFromErrorQueue T t (qs(t := [])) = Some (ErrorString ''SSL errors: '', qs(t := []))"
proof -
  obtain errs qs' where l: "errorFromErrorQueue_loop T t qs [] = Some (errs, qs')"
    by (simp add: loop_char)
  then have "errorFromErrorQueue T t qs = Some (ErrorString (''SSL errors: '' @ Join errs [CHR 0x0A]), qs')"
    by (simp add: errorFromErrorQueue_def errors_New_def)
  with l have first: "\<exists>errs qs' msg. errorFromErrorQueue_loop T t qs [] = Some (errs, qs')
       \<and> errorFromErrorQueue T t qs = Some (ErrorString msg, qs')
       \<and> msg = ''SSL errors: '' @ Join errs [CHR 0x0A]
       \<and> prefix ''SSL errors: '' msg"
    by (metis prefixI)
  have "errorFromErrorQueue T t (qs(t := [])) = Some (ErrorString ''SSL errors: '', qs(t := []))"
    by (simp add: drain_char)
  with first show ?thesis by (rule conjI)
qed

text \<open>
  Claim C10. The loop leaves for every queue state and every slice built so far, and so
  \<^verbatim>\<open>errorFromErrorQueue\<close> returns: the model never yields
  \<^term>\<open>None\<close>. Every line added is paid for by a code removed from the
  thread's queue, so the loop runs at most once more than the queue is long.
\<close>

theorem drain_terminates:
  "(\<exists>errs qs'. errorFromErrorQueue_loop T t qs errs0 = Some (errs, qs')
       \<and> length errs + length (qs' t) \<le> length errs0 + length (qs t))
   \<and> (\<exists>e qs'. errorFromErrorQueue T t qs = Some (e, qs') \<and> length (qs' t) \<le> length (qs t))"
proof -
  let ?P = "\<lambda>c::c_ulong. c \<noteq> 0"
  have b: "length (takeWhile ?P (qs t)) + length (drop 1 (dropWhile ?P (qs t))) \<le> length (qs t)"
    by (rule length_take_drop)
  have "length (errs0 @ map (error_line T) (takeWhile ?P (qs t)))
          + length ((qs(t := drop 1 (dropWhile ?P (qs t)))) t) \<le> length errs0 + length (qs t)"
    using b by simp
  then have l: "\<exists>errs qs'. errorFromErrorQueue_loop T t qs errs0 = Some (errs, qs')
       \<and> length errs + length (qs' t) \<le> length errs0 + length (qs t)"
    using loop_char [of T t qs errs0] by blast
  have "length ((qs(t := drop 1 (dropWhile ?P (qs t)))) t) \<le> length (qs t)"
    using b by simp
  then have d: "\<exists>e qs'. errorFromErrorQueue T t qs = Some (e, qs') \<and> length (qs' t) \<le> length (qs t)"
    using drain_char [of T t qs] by blast
  from l d show ?thesis by (rule conjI)
qed

end
